theory Spec2Isabelle
  imports Complex_Main "HOL-Library.Sublist" "HOL-Library.Multiset"
begin

section \<open>Strings of the page\<close>

text \<open>
  A media address is a JavaScript string. It is modelled as a \<open>string\<close> whose characters
  are the code units U+0000 .. U+00FF, one \<open>char\<close> per code unit. On this range
  \<open>String.prototype.trim\<close> and \<open>String.prototype.toLowerCase\<close> are the functions below.
\<close>

definition isWhiteSpace :: "char \<Rightarrow> bool" where
  \<comment> \<open>WhiteSpace and LineTerminator code units below U+0100: TAB, LF, VT, FF, CR, SP, NBSP.\<close>
  "isWhiteSpace c = ((of_char c :: nat) \<in> {9, 10, 11, 12, 13, 32, 160})"

definition trim :: "string \<Rightarrow> string" where
  "trim s = rev (dropWhile isWhiteSpace (rev (dropWhile isWhiteSpace s)))"

definition toLowerChar :: "char \<Rightarrow> char" where
  \<comment> \<open>A..Z and the Latin-1 capitals U+00C0 .. U+00DE (without the sign U+00D7) move up by 32.\<close>
  "toLowerChar c =
     (let n = (of_char c :: nat) in
      if (65 \<le> n \<and> n \<le> 90) \<or> (192 \<le> n \<and> n \<le> 222 \<and> n \<noteq> 215)
      then char_of (n + 32) else c)"

definition toLowerCase :: "string \<Rightarrow> string" where
  "toLowerCase s = map toLowerChar s"

fun startsWith :: "string \<Rightarrow> string \<Rightarrow> bool" where
  "startsWith s [] = True"
| "startsWith [] (p # ps) = False"
| "startsWith (c # cs) (p # ps) = (c = p \<and> startsWith cs ps)"

fun includesStr :: "string \<Rightarrow> string \<Rightarrow> bool" where
  \<comment> \<open>\<open>s.includes(p)\<close>: \<open>p\<close> occurs in \<open>s\<close> at some position.\<close>
  "includesStr [] p = (p = [])"
| "includesStr (c # cs) p = (startsWith (c # cs) p \<or> includesStr cs p)"

section \<open>Shell (App.tsx)\<close>

definition DEFAULT_STREAM :: string where
  "DEFAULT_STREAM = ''https://af.ayassport.ir/hls2/bein1.m3u8''"

record app =
  streamUrl :: string
  urlInput :: string

definition initialApp :: app where
  "initialApp = \<lparr>streamUrl = DEFAULT_STREAM, urlInput = DEFAULT_STREAM\<rparr>"

definition onUrlInputChange :: "string \<Rightarrow> app \<Rightarrow> app" where
  \<comment> \<open>\<open>onChange={(e) => setUrlInput(e.target.value)}\<close>\<close>
  "onUrlInputChange v a = a\<lparr>urlInput := v\<rparr>"

definition handleUrlSubmit :: "app \<Rightarrow> app" where
  \<comment> \<open>The empty string is the only falsy string.\<close>
  "handleUrlSubmit a =
     (if trim (urlInput a) \<noteq> [] then a\<lparr>streamUrl := trim (urlInput a)\<rparr> else a)"

definition playerSrc :: "app \<Rightarrow> string" where
  \<comment> \<open>\<open><HlsPlayer src={streamUrl} />\<close>\<close>
  "playerSrc a = streamUrl a"

section \<open>Player (HlsPlayer): data\<close>

text \<open>
  Text shown to the user is kept as its list of Unicode code points, so that the Arabic
  literals of the source are the values of the model.
\<close>

type_synonym message = "nat list"

definition textOf :: "string \<Rightarrow> message" where
  "textOf s = map of_char s"

definition MSG_STREAM_ERROR :: message where
  \<comment> \<open>the argument of \<open>setError\<close> in the ERROR handler of the adaptive client\<close>
  "MSG_STREAM_ERROR =
     [1582, 1591, 1571, 32, 1601, 1610, 32, 1575, 1604, 1575, 1578, 1589, 1575, 1604, 32,
      1576, 1575, 1604, 1576, 1579]"

definition MSG_FILE_ERROR :: message where
  \<comment> \<open>the argument of \<open>setError\<close> in the error listener of the direct-file path\<close>
  "MSG_FILE_ERROR =
     [1578, 1593, 1584, 1585, 32, 1578, 1588, 1594, 1610, 1604, 32, 1575, 1604, 1605, 1604,
      1601, 46, 32, 1578, 1571, 1603, 1583, 32, 1605, 1606, 32, 1575, 1604, 1589, 1610, 1594,
      1577, 32, 1608, 1575, 1604, 1585, 1575, 1576, 1591, 46]"

definition MSG_AUTO :: message where
  "MSG_AUTO = [1578, 1604, 1602, 1575, 1574, 1610]"

text \<open>
  \<open>video.duration\<close> is a finite number, \<open>Infinity\<close> (an unbounded stream) or \<open>NaN\<close>
  (no media). Heights, bitrates and indices are integers.
\<close>

datatype jsnumber = Num real | Infinity | NaN

record LevelDetails =
  live :: bool

record Level =
  level_height :: int
  level_bitrate :: int
  level_details :: "LevelDetails option"

record QualityLevel =
  height :: int
  bitrate :: int
  index :: int
  name :: string
  label :: string

datatype ErrorTypes = NETWORK_ERROR | MEDIA_ERROR | KEY_SYSTEM_ERROR | MUX_ERROR | OTHER_ERROR

text \<open>
  The two collaborators are driven through calls and property writes. Each one is recorded,
  in program order, in the field \<open>calls\<close> of the state. An instance of the adaptive client
  is named by the handle it got from \<open>new Hls\<close>; the other arguments of \<open>HlsNew\<close> are
  the options \<open>enableWorker\<close>, \<open>lowLatencyMode\<close> and \<open>startLevel\<close>. A call of
  \<open>video.play()\<close> carries the rejection handler chained to its promise, if any.
\<close>

datatype play_catch = CatchHls | CatchNative

datatype call =
    HlsNew nat bool bool int
  | HlsLoadSource nat string
  | HlsAttachMedia nat
  | HlsStartLoad nat
  | HlsRecoverMediaError nat
  | HlsDestroy nat
  | HlsSetCurrentLevel nat int
  | VideoSetSrc string
  | VideoLoad
  | VideoPlay "play_catch option"
  | VideoPause
  | VideoSetVolume real
  | VideoSetMuted bool
  | VideoSetCurrentTime real

datatype listener = OnLoadedMetadata | OnLoadedData | OnError

datatype dom_exception = IndexSizeError

datatype js_error = TypeError

record player =
  isPlaying :: bool
  isMuted :: bool
  volume :: real
  isBuffering :: bool
  isFullscreen :: bool
  showControls :: bool
  error :: "message option"
  duration :: jsnumber
  currentTime :: real
  isLive :: bool
  qualities :: "QualityLevel list"
  currentQualityIndex :: int
  showSettings :: bool
  videoRef :: bool
  hlsRef :: "nat option"
  nextHls :: nat
  listeners :: "listener list"
  calls :: "call list"

text \<open>
  \<open>videoRef\<close> tells whether \<open>videoRef.current\<close> is the element; \<open>hlsRef\<close> is
  \<open>hlsRef.current\<close>; \<open>nextHls\<close> is the next unused handle; \<open>listeners\<close> are the
  listeners that \<open>loadVideo\<close> added to the element (they are never removed).
\<close>

definition initialPlayer :: player where
  "initialPlayer =
     \<lparr>isPlaying = False, isMuted = False, volume = 1, isBuffering = True,
      isFullscreen = False, showControls = True, error = None, duration = Num 0,
      currentTime = 0, isLive = False, qualities = [], currentQualityIndex = - 1,
      showSettings = False, videoRef = True, hlsRef = None, nextHls = 0,
      listeners = [], calls = []\<rparr>"

text \<open>
  What the platform answers: \<open>Hls.isSupported()\<close>, and \<open>video.canPlayType\<close>, whose
  result is the empty string for a type that cannot be played.
\<close>

record env =
  hlsIsSupported :: bool
  canPlayType :: "string \<Rightarrow> string"

section \<open>Player: helpers\<close>

definition getResolutionLabel :: "int \<Rightarrow> string" where
  "getResolutionLabel h =
     (if h \<ge> 2160 then ''4K''
      else if h \<ge> 1440 then ''2K''
      else if h \<ge> 1080 then ''FHD''
      else if h \<ge> 720 then ''HD''
      else ''SD'')"

definition digitChar :: "nat \<Rightarrow> char" where
  "digitChar d = char_of (48 + d)"

fun showNat :: "nat \<Rightarrow> string" where
  "showNat n = (if n < 10 then [digitChar n] else showNat (n div 10) @ [digitChar (n mod 10)])"

declare showNat.simps [simp del]

definition showInt :: "int \<Rightarrow> string" where
  "showInt i = (if i < 0 then CHR ''-'' # showNat (nat (- i)) else showNat (nat i))"

definition toQualityLevel :: "nat \<times> Level \<Rightarrow> QualityLevel" where
  \<comment> \<open>the callback of \<open>data.levels.map\<close>; the number 0 is falsy\<close>
  "toQualityLevel p = (case p of (i, level) \<Rightarrow>
     \<lparr>height = level_height level,
      bitrate = level_bitrate level,
      index = int i,
      name = (if level_height level \<noteq> 0 then showInt (level_height level) @ ''p''
              else ''L'' @ showInt (int i)),
      label = getResolutionLabel (level_height level)\<rparr>)"

definition compareHeight :: "QualityLevel \<Rightarrow> QualityLevel \<Rightarrow> int" where
  \<comment> \<open>\<open>(a, b) => b.height - a.height\<close>\<close>
  "compareHeight a b = height b - height a"

text \<open>
  \<open>Array.prototype.sort\<close> is stable: with a comparator that is a total preorder, as
  \<open>compareHeight\<close> is on integers, its result is the one of the stable insertion sort.
\<close>

fun insertBy :: "('a \<Rightarrow> 'a \<Rightarrow> int) \<Rightarrow> 'a \<Rightarrow> 'a list \<Rightarrow> 'a list" where
  "insertBy cmp x [] = [x]"
| "insertBy cmp x (y # ys) = (if cmp x y \<le> 0 then x # y # ys else y # insertBy cmp x ys)"

definition sortBy :: "('a \<Rightarrow> 'a \<Rightarrow> int) \<Rightarrow> 'a list \<Rightarrow> 'a list" where
  "sortBy cmp xs = foldr (insertBy cmp) xs []"

definition isHlsSource :: "string \<Rightarrow> bool" where
  "isHlsSource src =
     (includesStr (toLowerCase src) ''.m3u8''
      \<or> includesStr (toLowerCase src) ''application/vnd.apple.mpegurl'')"

definition someLive :: "Level list \<Rightarrow> bool" where
  \<comment> \<open>\<open>data.levels.some(level => level.details?.live)\<close>\<close>
  "someLive levels =
     list_ex (\<lambda>level. case level_details level of None \<Rightarrow> False | Some d \<Rightarrow> live d) levels"

definition issue :: "call list \<Rightarrow> player \<Rightarrow> player" where
  "issue cs st = st\<lparr>calls := calls st @ cs\<rparr>"

section \<open>Player: the setup effect\<close>

definition loadVideo :: "env \<Rightarrow> string \<Rightarrow> player \<Rightarrow> player" where
  "loadVideo e src st =
     (if isHlsSource src \<and> hlsIsSupported e then
        (let h = nextHls st in
         issue [HlsNew h True True (- 1), HlsLoadSource h src, HlsAttachMedia h]
           (st\<lparr>nextHls := Suc h, hlsRef := Some h\<rparr>))
      else if isHlsSource src \<and> canPlayType e ''application/vnd.apple.mpegurl'' \<noteq> [] then
        issue [VideoSetSrc src] (st\<lparr>listeners := listeners st @ [OnLoadedMetadata]\<rparr>)
      else
        issue [VideoSetSrc src, VideoLoad]
          (st\<lparr>qualities := [], listeners := listeners st @ [OnLoadedData, OnError]\<rparr>))"

definition setupPlayer :: "env \<Rightarrow> string \<Rightarrow> player \<Rightarrow> player" where
  "setupPlayer e src st =
     (if \<not> videoRef st then st
      else
        (let st1 = st\<lparr>isBuffering := True, error := None, qualities := [],
                      currentQualityIndex := - 1, isLive := False\<rparr>;
             st2 = (case hlsRef st1 of
                      Some h \<Rightarrow> issue [HlsDestroy h] (st1\<lparr>hlsRef := None\<rparr>)
                    | None \<Rightarrow> st1)
         in loadVideo e src st2))"

definition cleanupPlayer :: "player \<Rightarrow> player" where
  \<comment> \<open>the function returned by the effect; it does not clear \<open>hlsRef.current\<close>\<close>
  "cleanupPlayer st = (case hlsRef st of Some h \<Rightarrow> issue [HlsDestroy h] st | None \<Rightarrow> st)"

definition srcChanged :: "env \<Rightarrow> string \<Rightarrow> player \<Rightarrow> player" where
  \<comment> \<open>a new value of the property \<open>src\<close>: the old effect is cleaned up, then the effect runs\<close>
  "srcChanged e src st = setupPlayer e src (cleanupPlayer st)"

section \<open>Player: handlers of the adaptive client\<close>

definition onManifestParsed :: "Level list \<Rightarrow> player \<Rightarrow> player" where
  "onManifestParsed levels st =
     issue [VideoPlay (Some CatchHls)]
       (st\<lparr>isBuffering := False,
           isLive := someLive levels,
           qualities := sortBy compareHeight (map toQualityLevel (enumerate 0 levels))\<rparr>)"

definition onHlsError :: "nat \<Rightarrow> bool \<Rightarrow> ErrorTypes \<Rightarrow> player \<Rightarrow> player" where
  \<comment> \<open>\<open>h\<close> is the instance the handler was registered on\<close>
  "onHlsError h fatal ty st =
     (if fatal then
        (case ty of
           NETWORK_ERROR \<Rightarrow> issue [HlsStartLoad h] st
         | MEDIA_ERROR \<Rightarrow> issue [HlsRecoverMediaError h] st
         | _ \<Rightarrow> issue [HlsDestroy h] (st\<lparr>error := Some MSG_STREAM_ERROR\<rparr>))
      else st)"

definition onPlayRejected :: "play_catch \<Rightarrow> player \<Rightarrow> player" where
  "onPlayRejected c st =
     (case c of
        CatchHls \<Rightarrow> st\<lparr>isPlaying := False, isMuted := True\<rparr>
      | CatchNative \<Rightarrow> st\<lparr>isMuted := True\<rparr>)"

section \<open>Player: listeners on the media element\<close>

definition onLoadedMetadata :: "player \<Rightarrow> player" where
  "onLoadedMetadata st = issue [VideoPlay (Some CatchNative)] (st\<lparr>isBuffering := False\<rparr>)"

definition onLoadedData :: "player \<Rightarrow> player" where
  "onLoadedData st = issue [VideoPlay (Some CatchNative)] (st\<lparr>isBuffering := False\<rparr>)"

definition onVideoError :: "bool \<Rightarrow> player \<Rightarrow> player" where
  \<comment> \<open>the argument tells whether \<open>video.error\<close> is set\<close>
  "onVideoError err st = (if err then st\<lparr>error := Some MSG_FILE_ERROR\<rparr> else st)"

definition onPlay :: "player \<Rightarrow> player" where
  "onPlay st = st\<lparr>isPlaying := True\<rparr>"

definition onPause :: "player \<Rightarrow> player" where
  "onPause st = st\<lparr>isPlaying := False\<rparr>"

definition onWaiting :: "player \<Rightarrow> player" where
  "onWaiting st = st\<lparr>isBuffering := True\<rparr>"

definition onPlaying :: "player \<Rightarrow> player" where
  "onPlaying st = st\<lparr>isBuffering := False\<rparr>"

definition onTimeUpdate :: "real \<Rightarrow> jsnumber \<Rightarrow> player \<Rightarrow> player" where
  \<comment> \<open>the arguments are \<open>video.currentTime\<close> and \<open>video.duration\<close>\<close>
  "onTimeUpdate t d st =
     (let st1 = st\<lparr>currentTime := t, duration := d\<rparr>
      in if d = Infinity then st1\<lparr>isLive := True\<rparr> else st1)"

section \<open>Player: actions\<close>

definition togglePlay :: "player \<Rightarrow> player" where
  "togglePlay st =
     (if videoRef st then (if isPlaying st then issue [VideoPause] st else issue [VideoPlay None] st)
      else st)"

definition toggleMute :: "player \<Rightarrow> player" where
  "toggleMute st =
     (if videoRef st then issue [VideoSetMuted (\<not> isMuted st)] (st\<lparr>isMuted := \<not> isMuted st\<rparr>)
      else st)"

definition handleVolumeChange :: "real \<Rightarrow> player \<Rightarrow> dom_exception option \<times> player" where
  \<comment> \<open>\<open>val\<close> is the parsed value of the slider. The setter of \<open>video.volume\<close> throws
      outside the interval from 0 to 1: the handler ends there, after \<open>setVolume\<close>.\<close>
  "handleVolumeChange val st =
     (let st1 = st\<lparr>volume := val\<rparr> in
      if videoRef st then
        (if val < 0 \<or> 1 < val then (Some IndexSizeError, st1)
         else (None, issue [VideoSetVolume val, VideoSetMuted (val = 0)] (st1\<lparr>isMuted := (val = 0)\<rparr>)))
      else (None, st1))"

definition changeQuality :: "int \<Rightarrow> player \<Rightarrow> js_error option \<times> player" where
  \<comment> \<open>The write to \<open>currentLevel\<close> is a setter of the client. On an instance that was
      destroyed the setter throws, since \<open>destroy\<close> released what it uses: the handler ends
      there, after \<open>setCurrentQualityIndex\<close> and before \<open>setShowSettings\<close>.\<close>
  "changeQuality i st =
     (let st1 = st\<lparr>currentQualityIndex := i\<rparr> in
      case hlsRef st1 of
        Some h \<Rightarrow>
          (if HlsDestroy h \<in> set (calls st1) then (Some TypeError, st1)
           else (None, (issue [HlsSetCurrentLevel h i] st1)\<lparr>showSettings := False\<rparr>))
      | None \<Rightarrow> (None, st1\<lparr>showSettings := False\<rparr>))"

definition seek :: "real \<Rightarrow> player \<Rightarrow> player" where
  "seek t st =
     (let st1 = (if videoRef st then issue [VideoSetCurrentTime t] st else st)
      in st1\<lparr>currentTime := t\<rparr>)"

section \<open>Player: what is rendered\<close>

datatype ui_action = ReloadPage | ToggleSettings | ChangeQuality int

record view =
  loadingOverlay :: bool
  errorOverlay :: "(message \<times> ui_action list) option"
  progressScrubber :: bool
  liveBadge :: bool
  timeText :: bool
  qualityButton :: "(message \<times> ui_action) option"
  qualityMenu :: "ui_action list option"
  standardBadge :: bool

definition hasError :: "player \<Rightarrow> bool" where
  \<comment> \<open>truthiness of \<open>error\<close>: neither \<open>null\<close> nor the empty string\<close>
  "hasError st = (case error st of None \<Rightarrow> False | Some m \<Rightarrow> m \<noteq> [])"

definition currentQualityLabel :: "player \<Rightarrow> message" where
  "currentQualityLabel st =
     (if currentQualityIndex st = - 1 then MSG_AUTO
      else (case find (\<lambda>x. index x = currentQualityIndex st) (qualities st) of
              Some q \<Rightarrow> textOf (name q)
            | None \<Rightarrow> textOf ''HD''))"

definition render :: "player \<Rightarrow> view" where
  "render st =
     \<lparr>loadingOverlay = (isBuffering st \<and> \<not> hasError st),
      errorOverlay =
        (case error st of
           None \<Rightarrow> None
         | Some m \<Rightarrow> (if m \<noteq> [] then Some (m, [ReloadPage]) else None)),
      progressScrubber = (\<not> isLive st),
      liveBadge = isLive st,
      timeText = (\<not> isLive st),
      qualityButton =
        (if length (qualities st) > 0 then Some (currentQualityLabel st, ToggleSettings)
         else None),
      qualityMenu =
        (if length (qualities st) > 0 \<and> showSettings st
         then Some (ChangeQuality (- 1) # map (\<lambda>q. ChangeQuality (index q)) (qualities st))
         else None),
      standardBadge = (length (qualities st) = 0 \<and> \<not> isLive st)\<rparr>"

definition offered :: "view \<Rightarrow> ui_action list" where
  \<comment> \<open>the actions of the buttons that are rendered\<close>
  "offered v =
     (case errorOverlay v of None \<Rightarrow> [] | Some (m, as) \<Rightarrow> as)
     @ (case qualityButton v of None \<Rightarrow> [] | Some (m, a) \<Rightarrow> [a])
     @ (case qualityMenu v of None \<Rightarrow> [] | Some as \<Rightarrow> as)"

definition click :: "ui_action \<Rightarrow> player \<Rightarrow> player" where
  \<comment> \<open>the handlers bound to the buttons; reloading the page mounts a new component\<close>
  "click a st =
     (case a of
        ReloadPage \<Rightarrow> initialPlayer
      | ToggleSettings \<Rightarrow> st\<lparr>showSettings := \<not> showSettings st\<rparr>
      | ChangeQuality i \<Rightarrow> snd (changeQuality i st))"

section \<open>Player: events\<close>

datatype event =
    SrcChanged string
  | ManifestParsed "Level list"
  | HlsError bool ErrorTypes
  | PlayRejected play_catch
  | LoadedMetadata
  | LoadedData
  | VideoError bool
  | Play
  | Pause
  | Waiting
  | Playing
  | TimeUpdate real jsnumber
  | TogglePlay
  | ToggleMute
  | VolumeChange real
  | Seek real
  | Click ui_action

definition hlsAlive :: "player \<Rightarrow> nat option" where
  \<comment> \<open>the instance that can still deliver events: \<open>destroy\<close> removes its handlers\<close>
  "hlsAlive st =
     (case hlsRef st of
        Some h \<Rightarrow> (if HlsDestroy h \<in> set (calls st) then None else Some h)
      | None \<Rightarrow> None)"

definition fire :: "env \<Rightarrow> event \<Rightarrow> player \<Rightarrow> player" where
  "fire e ev st =
     (case ev of
        SrcChanged src \<Rightarrow> srcChanged e src st
      | ManifestParsed levels \<Rightarrow>
          (case hlsAlive st of Some h \<Rightarrow> onManifestParsed levels st | None \<Rightarrow> st)
      | HlsError fatal ty \<Rightarrow>
          (case hlsAlive st of Some h \<Rightarrow> onHlsError h fatal ty st | None \<Rightarrow> st)
      | PlayRejected c \<Rightarrow>
          (if VideoPlay (Some c) \<in> set (calls st) then onPlayRejected c st else st)
      | LoadedMetadata \<Rightarrow> (onLoadedMetadata ^^ count_list (listeners st) OnLoadedMetadata) st
      | LoadedData \<Rightarrow> (onLoadedData ^^ count_list (listeners st) OnLoadedData) st
      | VideoError err \<Rightarrow> (onVideoError err ^^ count_list (listeners st) OnError) st
      | Play \<Rightarrow> (if videoRef st then onPlay st else st)
      | Pause \<Rightarrow> (if videoRef st then onPause st else st)
      | Waiting \<Rightarrow> (if videoRef st then onWaiting st else st)
      | Playing \<Rightarrow> (if videoRef st then onPlaying st else st)
      | TimeUpdate t d \<Rightarrow> (if videoRef st then onTimeUpdate t d st else st)
      | TogglePlay \<Rightarrow> togglePlay st
      | ToggleMute \<Rightarrow> toggleMute st
      | VolumeChange v \<Rightarrow> snd (handleVolumeChange v st)
      | Seek t \<Rightarrow> seek t st
      | Click a \<Rightarrow> (if a \<in> set (offered (render st)) then click a st else st))"

inductive reachable :: "env \<Rightarrow> player \<Rightarrow> bool" for e :: env where
  reachable_init: "reachable e initialPlayer"
| reachable_fire: "reachable e st \<Longrightarrow> reachable e (fire e ev st)"

definition run :: "env \<Rightarrow> event list \<Rightarrow> player \<Rightarrow> player" where
  "run e evs st = foldl (\<lambda>s ev. fire e ev s) st evs"



definition sameSession :: "player \<Rightarrow> player \<Rightarrow> bool" where
  "sameSession st st' =
     (videoRef st' = videoRef st \<and> qualities st' = qualities st
      \<and> currentQualityIndex st' = currentQualityIndex st \<and> hlsRef st' = hlsRef st)"

section \<open>Concrete environments and states\<close>

definition hlsJsBrowser :: env where
  \<comment> \<open>a browser with Media Source Extensions and no native HLS\<close>
  "hlsJsBrowser = \<lparr>hlsIsSupported = True, canPlayType = (\<lambda>t. [])\<rparr>"

definition nativeHlsBrowser :: env where
  "nativeHlsBrowser = \<lparr>hlsIsSupported = False, canPlayType = (\<lambda>t. ''maybe'')\<rparr>"

definition busyPlayer :: player where
  \<comment> \<open>a live session on the adaptive client, a rendition chosen, an error shown\<close>
  "busyPlayer = initialPlayer\<lparr>error := Some MSG_FILE_ERROR, isLive := True, isBuffering := False,
     qualities := [\<lparr>height = 720, bitrate = 1, index = 0, name = ''720p'', label = ''HD''\<rparr>],
     currentQualityIndex := 0, hlsRef := Some 0, nextHls := 1,
     calls := [HlsNew 0 True True (- 1)]\<rparr>"

definition mutedPlayer :: player where
  "mutedPlayer = initialPlayer\<lparr>isMuted := True, volume := 0\<rparr>"

definition twoLevels :: "Level list" where
  \<comment> \<open>a manifest that lists the lower rendition first\<close>
  "twoLevels =
     [\<lparr>level_height = 360, level_bitrate = 800000, level_details = None\<rparr>,
      \<lparr>level_height = 1080, level_bitrate = 5000000, level_details = None\<rparr>]"

definition staleSession :: "event list" where
  \<comment> \<open>a stream plays on the adaptive client, then the address of a direct file is submitted;
      the file loads and its request to play is rejected\<close>
  "staleSession =
     [SrcChanged DEFAULT_STREAM, ManifestParsed twoLevels, Play,
      SrcChanged ''video.MP4'', LoadedData, PlayRejected CatchNative]"


definition destroyedSession :: "event list" where
  \<comment> \<open>a stream is set up, its manifest is parsed, the client reports a fatal error of another
      category, then the quality button is pressed\<close>
  "destroyedSession =
     [SrcChanged DEFAULT_STREAM, ManifestParsed twoLevels, HlsError True OTHER_ERROR,
      Click ToggleSettings]"

section \<open>Properties of the Shell\<close>

lemma dropWhile_all_iff: "(\<forall>x \<in> set (dropWhile P xs). P x) \<longleftrightarrow> (\<forall>x \<in> set xs. P x)"
  by (induction xs) auto

lemma trim_empty_iff: "trim s = [] \<longleftrightarrow> (\<forall>c \<in> set s. isWhiteSpace c)"
  by (simp add: trim_def dropWhile_all_iff)

text \<open>
  C7. A form submission hands the trimmed field text to the Player exactly when that text is
  not empty; a field that is empty or holds only white space leaves the active address as it
  was. No other check is made on the text. The field text is never changed by a submission,
  and typing into the field never changes the active address.
\<close>

theorem C7_handleUrlSubmit:
  "(trim (urlInput a) \<noteq> [] \<longrightarrow> playerSrc (handleUrlSubmit a) = trim (urlInput a))
   \<and> ((\<forall>c \<in> set (urlInput a). isWhiteSpace c) \<longrightarrow> playerSrc (handleUrlSubmit a) = playerSrc a)
   \<and> urlInput (handleUrlSubmit a) = urlInput a
   \<and> playerSrc (onUrlInputChange v a) = playerSrc a"
  using trim_empty_iff [of "urlInput a"]
  by (auto simp: handleUrlSubmit_def playerSrc_def onUrlInputChange_def)

theorem C7_handleUrlSubmit_witness:
  "playerSrc (handleUrlSubmit \<lparr>streamUrl = DEFAULT_STREAM, urlInput = ''  not a url ''\<rparr>) = ''not a url''
   \<and> playerSrc (handleUrlSubmit \<lparr>streamUrl = DEFAULT_STREAM, urlInput = ''   ''\<rparr>) = DEFAULT_STREAM"
  using C7_handleUrlSubmit [of "\<lparr>streamUrl = DEFAULT_STREAM, urlInput = ''  not a url ''\<rparr>" "''x''"]
    C7_handleUrlSubmit [of "\<lparr>streamUrl = DEFAULT_STREAM, urlInput = ''   ''\<rparr>" "''x''"]
  by (simp add: trim_def isWhiteSpace_def playerSrc_def)

section \<open>Classifying the address\<close>

lemma startsWith_prefix: "startsWith s p \<longleftrightarrow> prefix p s"
  by (induction s p rule: startsWith.induct) auto

lemma includesStr_sublist: "includesStr s p \<longleftrightarrow> sublist p s"
  by (induction s) (auto simp: startsWith_prefix sublist_Cons_right)

lemma isHls_default: "sublist ''.m3u8'' (toLowerCase DEFAULT_STREAM)"
  by (simp add: includesStr_sublist [symmetric] DEFAULT_STREAM_def toLowerCase_def toLowerChar_def)

lemma notHls_mp4:
  "\<not> (sublist ''.m3u8'' (toLowerCase ''video.MP4'')
      \<or> sublist ''application/vnd.apple.mpegurl'' (toLowerCase ''video.MP4''))"
  by (simp add: includesStr_sublist [symmetric] toLowerCase_def toLowerChar_def)

text \<open>
  C1. \<open>loadVideo\<close> takes the first strategy that matches. An address whose lower-case form
  contains \<open>.m3u8\<close> or the HLS MIME type goes to the adaptive client when the library
  reports support: a new instance is made, loads the address and is attached to the element.
  Otherwise such an address is assigned as the source of the element when the element can
  play the HLS MIME type. In every other case the address is assigned as the source and
  \<open>load\<close> is called.
\<close>

theorem C1_loadVideo_strategy:
  fixes e :: env and src :: string and st :: player
  shows
  "((sublist ''.m3u8'' (toLowerCase src) \<or> sublist ''application/vnd.apple.mpegurl'' (toLowerCase src))
      \<and> hlsIsSupported e \<longrightarrow>
      calls (loadVideo e src st) =
        calls st @ [HlsNew (nextHls st) True True (- 1), HlsLoadSource (nextHls st) src,
                    HlsAttachMedia (nextHls st)]
      \<and> hlsRef (loadVideo e src st) = Some (nextHls st))
   \<and> ((sublist ''.m3u8'' (toLowerCase src) \<or> sublist ''application/vnd.apple.mpegurl'' (toLowerCase src))
      \<and> \<not> hlsIsSupported e \<and> canPlayType e ''application/vnd.apple.mpegurl'' \<noteq> [] \<longrightarrow>
      calls (loadVideo e src st) = calls st @ [VideoSetSrc src]
      \<and> hlsRef (loadVideo e src st) = hlsRef st)
   \<and> (\<not> ((sublist ''.m3u8'' (toLowerCase src) \<or> sublist ''application/vnd.apple.mpegurl'' (toLowerCase src))
          \<and> (hlsIsSupported e \<or> canPlayType e ''application/vnd.apple.mpegurl'' \<noteq> [])) \<longrightarrow>
      calls (loadVideo e src st) = calls st @ [VideoSetSrc src, VideoLoad]
      \<and> hlsRef (loadVideo e src st) = hlsRef st)"
  by (auto simp: loadVideo_def isHlsSource_def includesStr_sublist issue_def Let_def)

theorem C1_loadVideo_strategy_witness:
  "calls (loadVideo hlsJsBrowser DEFAULT_STREAM initialPlayer)
     = [HlsNew 0 True True (- 1), HlsLoadSource 0 DEFAULT_STREAM, HlsAttachMedia 0]
   \<and> calls (loadVideo nativeHlsBrowser DEFAULT_STREAM initialPlayer)
     = [VideoSetSrc DEFAULT_STREAM]
   \<and> calls (loadVideo hlsJsBrowser ''video.MP4'' initialPlayer)
     = [VideoSetSrc ''video.MP4'', VideoLoad]"
  using C1_loadVideo_strategy [of DEFAULT_STREAM hlsJsBrowser initialPlayer]
    C1_loadVideo_strategy [of DEFAULT_STREAM nativeHlsBrowser initialPlayer]
    C1_loadVideo_strategy [of "''video.MP4''" hlsJsBrowser initialPlayer]
    isHls_default notHls_mp4
  by (simp add: initialPlayer_def hlsJsBrowser_def nativeHlsBrowser_def)

section \<open>The setup effect\<close>

lemma loadVideo_fields:
  "qualities (loadVideo e src st) =
     (if isHlsSource src \<and> (hlsIsSupported e \<or> canPlayType e ''application/vnd.apple.mpegurl'' \<noteq> [])
      then qualities st else [])"
  "currentQualityIndex (loadVideo e src st) = currentQualityIndex st"
  "error (loadVideo e src st) = error st"
  "isLive (loadVideo e src st) = isLive st"
  "isBuffering (loadVideo e src st) = isBuffering st"
  "videoRef (loadVideo e src st) = videoRef st"
  by (auto simp: loadVideo_def issue_def Let_def)

lemma loadVideo_calls:
  "\<exists>start. calls (loadVideo e src st) = calls st @ start
     \<and> (\<forall>h. HlsDestroy h \<notin> set start)
     \<and> (hlsRef (loadVideo e src st) = hlsRef st
        \<or> hlsRef (loadVideo e src st) = Some (nextHls st)
          \<and> HlsNew (nextHls st) True True (- 1) \<in> set start)"
  by (auto simp: loadVideo_def issue_def Let_def)

lemma srcChanged_eq:
  assumes "videoRef st"
  shows "srcChanged e src st =
      loadVideo e src (st\<lparr>isBuffering := True, error := None, qualities := [],
        currentQualityIndex := - 1, isLive := False, hlsRef := None,
        calls := calls st @ (case hlsRef st of Some h \<Rightarrow> [HlsDestroy h, HlsDestroy h] | None \<Rightarrow> [])\<rparr>)"
proof (cases "hlsRef st")
  case None
  then have eq: "st\<lparr>isBuffering := True, error := None, qualities := [],
        currentQualityIndex := - 1, isLive := False, hlsRef := None\<rparr>
      = st\<lparr>isBuffering := True, error := None, qualities := [],
        currentQualityIndex := - 1, isLive := False\<rparr>"
    by (cases st) simp
  from None assms show ?thesis
    by (simp add: srcChanged_def cleanupPlayer_def setupPlayer_def issue_def eq)
next
  case (Some h)
  with assms show ?thesis
    by (simp add: srcChanged_def cleanupPlayer_def setupPlayer_def issue_def)
qed

lemma srcChanged_resets:
  assumes "videoRef st"
  shows "qualities (srcChanged e src st) = []"
    and "currentQualityIndex (srcChanged e src st) = - 1"
    and "error (srcChanged e src st) = None"
    and "isLive (srcChanged e src st) = False"
    and "isBuffering (srcChanged e src st) = True"
    and "videoRef (srcChanged e src st)"
  using assms by (simp_all add: srcChanged_eq loadVideo_fields)

text \<open>
  C3. A change of the address, whatever the state before it, empties the quality list, sets
  the selection to \<open>-1\<close>, removes the error message, clears the live flag and sets the
  buffering flag. An instance of the adaptive client that was referenced is destroyed (by
  the cleanup of the old effect and again by the new effect) before any call that starts
  the new session; the instance referenced afterwards, if any, is a new one.
\<close>

theorem C3_srcChanged_resets:
  assumes "videoRef st"
  shows "qualities (srcChanged e src st) = []
    \<and> currentQualityIndex (srcChanged e src st) = - 1
    \<and> error (srcChanged e src st) = None
    \<and> isLive (srcChanged e src st) = False
    \<and> isBuffering (srcChanged e src st) = True
    \<and> (\<exists>start. calls (srcChanged e src st) =
          calls st @ (case hlsRef st of Some h \<Rightarrow> [HlsDestroy h, HlsDestroy h] | None \<Rightarrow> []) @ start
        \<and> (\<forall>h. HlsDestroy h \<notin> set start)
        \<and> (hlsRef (srcChanged e src st) = None
           \<or> hlsRef (srcChanged e src st) = Some (nextHls st)
             \<and> HlsNew (nextHls st) True True (- 1) \<in> set start))"
proof -
  let ?s = "st\<lparr>isBuffering := True, error := None, qualities := [],
        currentQualityIndex := - 1, isLive := False, hlsRef := None,
        calls := calls st @ (case hlsRef st of Some h \<Rightarrow> [HlsDestroy h, HlsDestroy h] | None \<Rightarrow> [])\<rparr>"
  from loadVideo_calls [of e src ?s]
  have "\<exists>start. calls (srcChanged e src st) =
          calls st @ (case hlsRef st of Some h \<Rightarrow> [HlsDestroy h, HlsDestroy h] | None \<Rightarrow> []) @ start
        \<and> (\<forall>h. HlsDestroy h \<notin> set start)
        \<and> (hlsRef (srcChanged e src st) = None
           \<or> hlsRef (srcChanged e src st) = Some (nextHls st)
             \<and> HlsNew (nextHls st) True True (- 1) \<in> set start)"
    unfolding srcChanged_eq [OF assms] by auto
  with srcChanged_resets [OF assms, of e src] show ?thesis by simp
qed

theorem C3_srcChanged_resets_witness:
  "videoRef busyPlayer
   \<and> qualities (srcChanged hlsJsBrowser DEFAULT_STREAM busyPlayer) = []
   \<and> currentQualityIndex (srcChanged hlsJsBrowser DEFAULT_STREAM busyPlayer) = - 1
   \<and> error (srcChanged hlsJsBrowser DEFAULT_STREAM busyPlayer) = None
   \<and> \<not> isLive (srcChanged hlsJsBrowser DEFAULT_STREAM busyPlayer)
   \<and> isBuffering (srcChanged hlsJsBrowser DEFAULT_STREAM busyPlayer)
   \<and> calls (srcChanged hlsJsBrowser DEFAULT_STREAM busyPlayer) =
       [HlsNew 0 True True (- 1), HlsDestroy 0, HlsDestroy 0,
        HlsNew 1 True True (- 1), HlsLoadSource 1 DEFAULT_STREAM, HlsAttachMedia 1]"
proof -
  have v: "videoRef busyPlayer" by (simp add: busyPlayer_def initialPlayer_def)
  have c: "calls (srcChanged hlsJsBrowser DEFAULT_STREAM busyPlayer) =
       [HlsNew 0 True True (- 1), HlsDestroy 0, HlsDestroy 0,
        HlsNew 1 True True (- 1), HlsLoadSource 1 DEFAULT_STREAM, HlsAttachMedia 1]"
    using isHls_default
    by (simp add: srcChanged_def cleanupPlayer_def setupPlayer_def loadVideo_def issue_def
        busyPlayer_def initialPlayer_def hlsJsBrowser_def isHlsSource_def includesStr_sublist)
  from C3_srcChanged_resets [OF v, of hlsJsBrowser DEFAULT_STREAM] v c
  show ?thesis by simp
qed

section \<open>Errors of the adaptive client\<close>

text \<open>
  C4. A fatal network error makes the handler call \<open>startLoad\<close> on the client, a fatal
  media error makes it call \<open>recoverMediaError\<close>; neither touches the error message. Any
  other fatal error destroys the client and sets the stream-connection message, which is not
  empty; the handler asks for no playback, the destroyed client delivers no manifest any more,
  and the error overlay offers the page reload as its only button. A non-fatal error leaves
  the state as it is.
\<close>

theorem C4_onHlsError:
  "(calls (onHlsError h True NETWORK_ERROR st) = calls st @ [HlsStartLoad h]
       \<and> error (onHlsError h True NETWORK_ERROR st) = error st)
   \<and> (calls (onHlsError h True MEDIA_ERROR st) = calls st @ [HlsRecoverMediaError h]
       \<and> error (onHlsError h True MEDIA_ERROR st) = error st)
   \<and> (ty \<noteq> NETWORK_ERROR \<and> ty \<noteq> MEDIA_ERROR \<longrightarrow>
         calls (onHlsError h True ty st) = calls st @ [HlsDestroy h]
       \<and> error (onHlsError h True ty st) = Some MSG_STREAM_ERROR
       \<and> MSG_STREAM_ERROR \<noteq> []
       \<and> errorOverlay (render (onHlsError h True ty st)) = Some (MSG_STREAM_ERROR, [ReloadPage])
       \<and> (hlsRef st = Some h \<longrightarrow>
            fire e (ManifestParsed levels) (onHlsError h True ty st) = onHlsError h True ty st))
   \<and> onHlsError h False ty st = st"
  by (cases ty) (auto simp: onHlsError_def issue_def MSG_STREAM_ERROR_def render_def hasError_def
      fire_def hlsAlive_def)

theorem C4_onHlsError_witness:
  "OTHER_ERROR \<noteq> NETWORK_ERROR \<and> OTHER_ERROR \<noteq> MEDIA_ERROR \<and> hlsRef busyPlayer = Some 0
   \<and> calls (onHlsError 0 True OTHER_ERROR busyPlayer) = calls busyPlayer @ [HlsDestroy 0]
   \<and> error (onHlsError 0 True OTHER_ERROR busyPlayer) = Some MSG_STREAM_ERROR
   \<and> errorOverlay (render (onHlsError 0 True OTHER_ERROR busyPlayer)) = Some (MSG_STREAM_ERROR, [ReloadPage])
   \<and> fire hlsJsBrowser (ManifestParsed []) (onHlsError 0 True OTHER_ERROR busyPlayer)
       = onHlsError 0 True OTHER_ERROR busyPlayer"
proof -
  have h: "hlsRef busyPlayer = Some 0" by (simp add: busyPlayer_def)
  from C4_onHlsError [of 0 busyPlayer OTHER_ERROR hlsJsBrowser "[]"] h
  show ?thesis by simp
qed

section \<open>Volume and the live flag\<close>

text \<open>
  C8. With the element mounted and a slider value \<open>v\<close> between 0 and 1, the handler writes
  \<open>v\<close> to the volume of the element and to the displayed volume, and sets the muted property
  of the element and the muted flag to the truth value of \<open>v = 0\<close>.
\<close>

theorem C8_handleVolumeChange:
  assumes "videoRef st" and "0 \<le> v" and "v \<le> 1"
  shows "fst (handleVolumeChange v st) = None
     \<and> volume (snd (handleVolumeChange v st)) = v
     \<and> isMuted (snd (handleVolumeChange v st)) = (v = 0)
     \<and> calls (snd (handleVolumeChange v st)) = calls st @ [VideoSetVolume v, VideoSetMuted (v = 0)]"
  using assms by (simp add: handleVolumeChange_def issue_def)

theorem C8_handleVolumeChange_witness:
  "videoRef mutedPlayer \<and> (0::real) \<le> 1 / 2 \<and> (1::real) / 2 \<le> 1
   \<and> isMuted mutedPlayer
   \<and> volume (snd (handleVolumeChange (1 / 2) mutedPlayer)) = 1 / 2
   \<and> \<not> isMuted (snd (handleVolumeChange (1 / 2) mutedPlayer))
   \<and> calls (snd (handleVolumeChange (1 / 2) mutedPlayer)) = [VideoSetVolume (1 / 2), VideoSetMuted False]
   \<and> volume (snd (handleVolumeChange 0 initialPlayer)) = 0
   \<and> isMuted (snd (handleVolumeChange 0 initialPlayer))
   \<and> calls (snd (handleVolumeChange 0 initialPlayer)) = [VideoSetVolume 0, VideoSetMuted True]"
proof -
  have v: "videoRef mutedPlayer" "videoRef initialPlayer" "isMuted mutedPlayer"
    by (simp_all add: mutedPlayer_def initialPlayer_def)
  have c: "calls mutedPlayer = []" "calls initialPlayer = []"
    by (simp_all add: mutedPlayer_def initialPlayer_def)
  from C8_handleVolumeChange [OF v(1), of "1 / 2"] C8_handleVolumeChange [OF v(2), of 0] v c
  show ?thesis by simp
qed

text \<open>
  C9. A time update that reports the duration \<open>Infinity\<close> sets the live flag. While the live
  flag is set the progress scrubber is not rendered and the live badge is.
\<close>

theorem C9_live:
  "isLive (onTimeUpdate t Infinity st)
   \<and> (videoRef st \<longrightarrow> isLive (fire e (TimeUpdate t Infinity) st))
   \<and> (isLive st \<longrightarrow> \<not> progressScrubber (render st) \<and> liveBadge (render st))
   \<and> \<not> progressScrubber (render (onTimeUpdate t Infinity st))
   \<and> liveBadge (render (onTimeUpdate t Infinity st))"
  by (simp add: onTimeUpdate_def fire_def render_def)

theorem C9_live_witness:
  "videoRef initialPlayer \<and> \<not> isLive initialPlayer
   \<and> isLive (fire hlsJsBrowser (TimeUpdate 0 Infinity) initialPlayer)
   \<and> isLive busyPlayer \<and> \<not> progressScrubber (render busyPlayer) \<and> liveBadge (render busyPlayer)"
proof -
  have v: "videoRef initialPlayer" "\<not> isLive initialPlayer" "isLive busyPlayer"
    by (simp_all add: initialPlayer_def busyPlayer_def)
  from C9_live [of 0 initialPlayer hlsJsBrowser] C9_live [of 0 busyPlayer hlsJsBrowser] v
  show ?thesis by simp
qed

section \<open>The sort of the quality list\<close>

lemma insertBy_length: "length (insertBy cmp x xs) = Suc (length xs)"
  by (induction xs) auto

lemma sortBy_length: "length (sortBy cmp xs) = length xs"
  by (induction xs) (auto simp: sortBy_def insertBy_length)

lemma insertBy_mset: "mset (insertBy cmp x xs) = add_mset x (mset xs)"
  by (induction xs) auto

lemma sortBy_mset: "mset (sortBy cmp xs) = mset xs"
  by (induction xs) (auto simp: sortBy_def insertBy_mset)

lemma insertBy_set: "set (insertBy cmp x xs) = insert x (set xs)"
  by (induction xs) auto

lemma sortBy_set: "set (sortBy cmp xs) = set xs"
  by (induction xs) (auto simp: sortBy_def insertBy_set)



section \<open>The entries built from the manifest\<close>


lemma toQualityLevel_sel:
  "height (toQualityLevel (i, l)) = level_height l"
  "bitrate (toQualityLevel (i, l)) = level_bitrate l"
  "index (toQualityLevel (i, l)) = int i"
  "label (toQualityLevel (i, l)) = getResolutionLabel (level_height l)"
  by (simp_all add: toQualityLevel_def)

lemma in_levels:
  assumes "q \<in> set (map toQualityLevel (enumerate 0 levels))"
  shows "\<exists>i < length levels. q = toQualityLevel (i, levels ! i)"
proof -
  from assms obtain p where p: "p \<in> set (enumerate 0 levels)" "q = toQualityLevel p" by auto
  then have "fst p < length levels" "levels ! fst p = snd p"
    by (simp_all add: in_set_enumerate_eq)
  with p(2) show ?thesis by (intro exI [of _ "fst p"]) simp
qed

lemma levels_index:
  "map index (map toQualityLevel (enumerate 0 levels)) = map int [0..<length levels]"
  by (rule nth_equalityI) (simp_all add: nth_enumerate_eq toQualityLevel_def)

lemma onManifestParsed_sel:
  "qualities (onManifestParsed levels st) = sortBy compareHeight (map toQualityLevel (enumerate 0 levels))"
  "currentQualityIndex (onManifestParsed levels st) = currentQualityIndex st"
  "hlsRef (onManifestParsed levels st) = hlsRef st"
  "calls (onManifestParsed levels st) = calls st @ [VideoPlay (Some CatchHls)]"
  "isBuffering (onManifestParsed levels st) = False"
  by (simp_all add: onManifestParsed_def issue_def)

lemma fire_manifest:
  "hlsAlive st \<noteq> None \<Longrightarrow> fire e (ManifestParsed levels) st = onManifestParsed levels st"
  by (auto simp: fire_def)

lemma hlsAlive_hlsRef: "hlsAlive st = Some h \<Longrightarrow> hlsRef st = Some h"
  by (auto simp: hlsAlive_def split: option.splits if_splits)

section \<open>What stays fixed during a session\<close>

lemma sameSession_funpow:
  assumes "\<And>s. sameSession s (f s)"
  shows "sameSession st ((f ^^ n) st)"
proof (induction n)
  case 0
  show ?case by (simp add: sameSession_def)
next
  case (Suc n)
  from Suc assms [of "(f ^^ n) st"] show ?case by (simp add: sameSession_def)
qed

lemma sameSession_listeners:
  "sameSession st ((onLoadedMetadata ^^ n) st)"
  "sameSession st ((onLoadedData ^^ n) st)"
  "sameSession st ((onVideoError err ^^ n) st)"
  by (rule sameSession_funpow; simp add: sameSession_def onLoadedMetadata_def onLoadedData_def
      onVideoError_def issue_def)+

lemma sameSession_handlers:
  "sameSession st (onHlsError h fatal ty st)"
  "sameSession st (onPlayRejected c st)"
  "sameSession st (onPlay st)"
  "sameSession st (onPause st)"
  "sameSession st (onWaiting st)"
  "sameSession st (onPlaying st)"
  "sameSession st (onTimeUpdate t d st)"
  "sameSession st (togglePlay st)"
  "sameSession st (toggleMute st)"
  "sameSession st (seek t st)"
  "sameSession st (snd (handleVolumeChange v st))"
  by (auto simp: sameSession_def onHlsError_def onPlayRejected_def onPlay_def onPause_def
      onWaiting_def onPlaying_def onTimeUpdate_def togglePlay_def toggleMute_def seek_def
      handleVolumeChange_def issue_def Let_def split: ErrorTypes.splits play_catch.splits if_splits)







lemma session_start:
  "hlsAlive (run hlsJsBrowser [Waiting] (srcChanged hlsJsBrowser DEFAULT_STREAM initialPlayer)) = Some 0"
  using isHls_default
  by (simp add: run_def fire_def onWaiting_def srcChanged_def cleanupPlayer_def setupPlayer_def
      loadVideo_def issue_def initialPlayer_def hlsJsBrowser_def isHlsSource_def
      includesStr_sublist hlsAlive_def)

lemma twoLevels_entries:
  "map height (sortBy compareHeight (map toQualityLevel (enumerate 0 twoLevels))) = [1080, 360]"
  "map index (sortBy compareHeight (map toQualityLevel (enumerate 0 twoLevels))) = [1, 0]"
  "map label (sortBy compareHeight (map toQualityLevel (enumerate 0 twoLevels))) = [''FHD'', ''SD'']"
  by (simp_all add: twoLevels_def sortBy_def compareHeight_def toQualityLevel_def
      getResolutionLabel_def)




section \<open>Choosing a rendition\<close>

lemma changeQuality_sel:
  "calls (snd (changeQuality i st)) =
     calls st @ (case hlsAlive st of Some h \<Rightarrow> [HlsSetCurrentLevel h i] | None \<Rightarrow> [])"
  "showSettings (snd (changeQuality i st)) =
     (if hlsRef st \<noteq> None \<and> hlsAlive st = None then showSettings st else False)"
  "fst (changeQuality i st) =
     (if hlsRef st \<noteq> None \<and> hlsAlive st = None then Some TypeError else None)"
  "currentQualityIndex (snd (changeQuality i st)) = i"
  "qualities (snd (changeQuality i st)) = qualities st"
  "hlsRef (snd (changeQuality i st)) = hlsRef st"
  "videoRef (snd (changeQuality i st)) = videoRef st"
  "isBuffering (snd (changeQuality i st)) = isBuffering st"
  "error (snd (changeQuality i st)) = error st"
  "isLive (snd (changeQuality i st)) = isLive st"
  by (auto simp: changeQuality_def issue_def Let_def hlsAlive_def split: option.splits)

lemma menu_open:
  assumes "qualities st \<noteq> []"
  shows "qualityMenu (render (st\<lparr>showSettings := True\<rparr>)) =
     Some (ChangeQuality (- 1) # map (\<lambda>q. ChangeQuality (index q)) (qualities st))"
  using assms by (simp add: render_def)

text \<open>
  C10. The entries of the quality list are the entries built from the manifest, in another
  order: before the sort the entry at position \<open>k\<close> has the index \<open>k\<close>, and the sort
  leaves every entry as it is. So the indices shown are the positions \<open>0 .. N - 1\<close>, each
  once, and the height and the bitrate of an entry are the ones of the rendition at its
  index. The menu button at display position \<open>k\<close> (after the button for the automatic
  choice) calls \<open>changeQuality\<close> with the index of the entry shown there, and the client
  gets that index as its current level.
\<close>

theorem C10_index_preserved:
  assumes "hlsAlive s = Some h"
  shows "mset (qualities (fire e (ManifestParsed levels) s))
       = mset (map toQualityLevel (enumerate 0 levels))
    \<and> map index (map toQualityLevel (enumerate 0 levels)) = map int [0..<length levels]
    \<and> mset (map index (qualities (fire e (ManifestParsed levels) s)))
       = mset (map int [0..<length levels])
    \<and> (\<forall>q \<in> set (qualities (fire e (ManifestParsed levels) s)).
          0 \<le> index q \<and> nat (index q) < length levels
        \<and> height q = level_height (levels ! nat (index q))
        \<and> bitrate q = level_bitrate (levels ! nat (index q)))
    \<and> (\<forall>k < length levels. \<exists>acts.
          qualityMenu (render ((fire e (ManifestParsed levels) s)\<lparr>showSettings := True\<rparr>)) = Some acts
        \<and> acts ! Suc k = ChangeQuality (index (qualities (fire e (ManifestParsed levels) s) ! k))
        \<and> calls (click (acts ! Suc k) ((fire e (ManifestParsed levels) s)\<lparr>showSettings := True\<rparr>))
            = calls (fire e (ManifestParsed levels) s)
              @ [HlsSetCurrentLevel h (index (qualities (fire e (ManifestParsed levels) s) ! k))])"
proof -
  let ?st = "fire e (ManifestParsed levels) s"
  let ?pre = "map toQualityLevel (enumerate 0 levels)"
  have st: "?st = onManifestParsed levels s" using assms by (simp add: fire_manifest)
  have qs: "qualities ?st = sortBy compareHeight ?pre" by (simp add: st onManifestParsed_sel)
  have ref: "hlsRef ?st = Some h"
    using assms by (simp add: st onManifestParsed_sel hlsAlive_hlsRef)
  have perm: "mset (qualities ?st) = mset ?pre" by (simp add: qs sortBy_mset)
  have idx: "mset (map index (qualities ?st)) = mset (map int [0..<length levels])"
  proof -
    have "mset (map index (qualities ?st)) = image_mset index (mset (qualities ?st))"
      by (simp only: mset_map)
    also have "\<dots> = image_mset index (mset ?pre)" by (simp only: perm)
    also have "\<dots> = mset (map index ?pre)" by (simp only: mset_map)
    finally show ?thesis by (simp only: levels_index)
  qed
  have ent: "0 \<le> index q \<and> nat (index q) < length levels
        \<and> height q = level_height (levels ! nat (index q))
        \<and> bitrate q = level_bitrate (levels ! nat (index q))"
    if "q \<in> set (qualities ?st)" for q
  proof -
    from that have "q \<in> set ?pre" by (simp only: qs sortBy_set)
    then obtain i where "i < length levels" "q = toQualityLevel (i, levels ! i)"
      using in_levels by blast
    then show ?thesis by (simp add: toQualityLevel_sel)
  qed
  have menu: "\<exists>acts.
          qualityMenu (render (?st\<lparr>showSettings := True\<rparr>)) = Some acts
        \<and> acts ! Suc k = ChangeQuality (index (qualities ?st ! k))
        \<and> calls (click (acts ! Suc k) (?st\<lparr>showSettings := True\<rparr>))
            = calls ?st @ [HlsSetCurrentLevel h (index (qualities ?st ! k))]"
    if "k < length levels" for k
  proof -
    from that have k: "k < length (qualities ?st)" by (simp add: qs sortBy_length)
    then have ne: "qualities ?st \<noteq> []" by auto
    let ?acts = "ChangeQuality (- 1) # map (\<lambda>q. ChangeQuality (index q)) (qualities ?st)"
    have a: "?acts ! Suc k = ChangeQuality (index (qualities ?st ! k))" using k by simp
    have alive: "hlsAlive (?st\<lparr>showSettings := True\<rparr>) = Some h"
      using assms
      by (auto simp: st onManifestParsed_def issue_def hlsAlive_def split: option.splits if_splits)
    have "calls (click (ChangeQuality (index (qualities ?st ! k))) (?st\<lparr>showSettings := True\<rparr>))
        = calls ?st @ [HlsSetCurrentLevel h (index (qualities ?st ! k))]"
      by (simp add: click_def changeQuality_sel alive)
    with a menu_open [OF ne] show ?thesis by (intro exI [of _ ?acts]) (simp only: simp_thms)
  qed
  from ent have ent': "\<forall>q \<in> set (qualities ?st).
          0 \<le> index q \<and> nat (index q) < length levels
        \<and> height q = level_height (levels ! nat (index q))
        \<and> bitrate q = level_bitrate (levels ! nat (index q))"
    by blast
  from menu have menu': "\<forall>k < length levels. \<exists>acts.
          qualityMenu (render (?st\<lparr>showSettings := True\<rparr>)) = Some acts
        \<and> acts ! Suc k = ChangeQuality (index (qualities ?st ! k))
        \<and> calls (click (acts ! Suc k) (?st\<lparr>showSettings := True\<rparr>))
            = calls ?st @ [HlsSetCurrentLevel h (index (qualities ?st ! k))]"
    by blast
  show ?thesis
    by (rule conjI [OF perm conjI [OF levels_index conjI [OF idx conjI [OF ent' menu']]]])
qed

theorem C10_index_preserved_witness:
  "hlsAlive (run hlsJsBrowser [Waiting] (srcChanged hlsJsBrowser DEFAULT_STREAM initialPlayer)) = Some 0
   \<and> map index (qualities (fire hlsJsBrowser (ManifestParsed twoLevels)
        (run hlsJsBrowser [Waiting] (srcChanged hlsJsBrowser DEFAULT_STREAM initialPlayer)))) = [1, 0]
   \<and> map height (qualities (fire hlsJsBrowser (ManifestParsed twoLevels)
        (run hlsJsBrowser [Waiting] (srcChanged hlsJsBrowser DEFAULT_STREAM initialPlayer)))) = [1080, 360]
   \<and> mset (map index (qualities (fire hlsJsBrowser (ManifestParsed twoLevels)
        (run hlsJsBrowser [Waiting] (srcChanged hlsJsBrowser DEFAULT_STREAM initialPlayer)))))
       = mset (map int [0..<length twoLevels])"
proof -
  let ?s = "run hlsJsBrowser [Waiting] (srcChanged hlsJsBrowser DEFAULT_STREAM initialPlayer)"
  have a: "hlsAlive ?s = Some 0" by (rule session_start)
  then have a': "hlsAlive ?s \<noteq> None" by simp
  have q: "map index (qualities (fire hlsJsBrowser (ManifestParsed twoLevels) ?s)) = [1, 0]"
    "map height (qualities (fire hlsJsBrowser (ManifestParsed twoLevels) ?s)) = [1080, 360]"
    by (simp_all only: fire_manifest [OF a'] onManifestParsed_sel twoLevels_entries)
  have "mset (map index (qualities (fire hlsJsBrowser (ManifestParsed twoLevels) ?s)))
       = mset (map int [0..<length twoLevels])"
    using C10_index_preserved [OF a, of hlsJsBrowser twoLevels] by (elim conjE)
  with a q show ?thesis by (simp only: simp_thms)
qed

section \<open>States the component can reach\<close>

lemma srcChanged_unmounted: "\<not> videoRef st \<Longrightarrow> sameSession st (srcChanged e src st)"
  by (simp add: srcChanged_def setupPlayer_def cleanupPlayer_def issue_def sameSession_def
      split: option.splits)

lemma no_client_same:
  assumes "sameSession st st'" and "hlsRef st = None \<longrightarrow> qualities st = []"
  shows "hlsRef st' = None \<longrightarrow> qualities st' = []"
  using assms by (simp add: sameSession_def)

lemma fire_no_client:
  assumes "hlsRef st = None \<longrightarrow> qualities st = []"
  shows "hlsRef (fire e ev st) = None \<longrightarrow> qualities (fire e ev st) = []"
proof (cases ev)
  case (SrcChanged src)
  show ?thesis
  proof (cases "videoRef st")
    case True
    with SrcChanged show ?thesis by (simp add: fire_def srcChanged_resets)
  next
    case False
    with SrcChanged no_client_same [OF srcChanged_unmounted assms] show ?thesis
      by (simp add: fire_def)
  qed
next
  case (ManifestParsed levels)
  with assms show ?thesis
    by (auto simp: fire_def onManifestParsed_sel dest: hlsAlive_hlsRef split: option.splits)
next
  case (Click a)
  with assms show ?thesis
    by (cases a) (auto simp: fire_def click_def changeQuality_sel initialPlayer_def)
next
  case (VolumeChange v)
  with assms show ?thesis
    by (simp add: fire_def no_client_same [OF sameSession_handlers(11) assms])
next
  case (HlsError fatal ty)
  with assms show ?thesis
    by (simp add: fire_def no_client_same [OF sameSession_handlers(1) assms] split: option.splits)
next
  case (PlayRejected c)
  with assms show ?thesis
    by (simp add: fire_def no_client_same [OF sameSession_handlers(2) assms])
next
  case LoadedMetadata
  with assms show ?thesis
    by (simp add: fire_def no_client_same [OF sameSession_listeners(1) assms])
next
  case LoadedData
  with assms show ?thesis
    by (simp add: fire_def no_client_same [OF sameSession_listeners(2) assms])
next
  case (VideoError err)
  with assms show ?thesis
    by (simp add: fire_def no_client_same [OF sameSession_listeners(3) assms])
next
  case Play
  with assms show ?thesis
    by (simp add: fire_def no_client_same [OF sameSession_handlers(3) assms])
next
  case Pause
  with assms show ?thesis
    by (simp add: fire_def no_client_same [OF sameSession_handlers(4) assms])
next
  case Waiting
  with assms show ?thesis
    by (simp add: fire_def no_client_same [OF sameSession_handlers(5) assms])
next
  case Playing
  with assms show ?thesis
    by (simp add: fire_def no_client_same [OF sameSession_handlers(6) assms])
next
  case (TimeUpdate t d)
  with assms show ?thesis
    by (simp add: fire_def no_client_same [OF sameSession_handlers(7) assms])
next
  case TogglePlay
  with assms show ?thesis
    by (simp add: fire_def no_client_same [OF sameSession_handlers(8) assms])
next
  case ToggleMute
  with assms show ?thesis
    by (simp add: fire_def no_client_same [OF sameSession_handlers(9) assms])
next
  case (Seek t)
  with assms show ?thesis
    by (simp add: fire_def no_client_same [OF sameSession_handlers(10) assms])
qed

lemma reachable_no_client: "reachable e st \<Longrightarrow> hlsRef st = None \<longrightarrow> qualities st = []"
proof (induction rule: reachable.induct)
  case reachable_init
  show ?case by (simp add: initialPlayer_def)
next
  case (reachable_fire st ev)
  then show ?case by (intro fire_no_client)
qed

lemma render_changeQuality:
  "qualities st = [] \<Longrightarrow> render (snd (changeQuality i st)) = render st"
  by (simp add: render_def changeQuality_sel hasError_def)

lemma directFile_session:
  "reachable hlsJsBrowser (fire hlsJsBrowser (SrcChanged ''video.MP4'') initialPlayer)"
  "hlsRef (fire hlsJsBrowser (SrcChanged ''video.MP4'') initialPlayer) = None"
  "calls (fire hlsJsBrowser (SrcChanged ''video.MP4'') initialPlayer) = [VideoSetSrc ''video.MP4'', VideoLoad]"
proof -
  show "reachable hlsJsBrowser (fire hlsJsBrowser (SrcChanged ''video.MP4'') initialPlayer)"
    by (intro reachable.intros)
  show "hlsRef (fire hlsJsBrowser (SrcChanged ''video.MP4'') initialPlayer) = None"
    "calls (fire hlsJsBrowser (SrcChanged ''video.MP4'') initialPlayer) = [VideoSetSrc ''video.MP4'', VideoLoad]"
    using notHls_mp4
    by (simp_all add: fire_def srcChanged_def cleanupPlayer_def setupPlayer_def loadVideo_def
        issue_def initialPlayer_def hlsJsBrowser_def isHlsSource_def includesStr_sublist)
qed

lemma changeQuality_by_design:
  "(hlsAlive st = Some h \<longrightarrow>
        fst (changeQuality i st) = None
      \<and> calls (snd (changeQuality i st)) = calls st @ [HlsSetCurrentLevel h i]
      \<and> showSettings (snd (changeQuality i st)) = False)
   \<and> (hlsRef st = None \<longrightarrow>
        fst (changeQuality i st) = None
      \<and> calls (snd (changeQuality i st)) = calls st
      \<and> showSettings (snd (changeQuality i st)) = False)
   \<and> (reachable e st \<and> hlsRef st = None \<longrightarrow>
        qualityButton (render st) = None \<and> qualityMenu (render st) = None
      \<and> render (snd (changeQuality i st)) = render st)
   \<and> (hlsRef st = Some h \<and> HlsDestroy h \<in> set (calls st) \<longrightarrow>
        changeQuality i st = (Some TypeError, st\<lparr>currentQualityIndex := i\<rparr>))"
proof -
  have "qualityButton (render st) = None \<and> qualityMenu (render st) = None
        \<and> render (snd (changeQuality i st)) = render st"
    if "reachable e st" "hlsRef st = None"
  proof -
    from that have q: "qualities st = []" using reachable_no_client by blast
    then show ?thesis by (simp add: render_changeQuality) (simp add: render_def)
  qed
  moreover have "changeQuality i st = (Some TypeError, st\<lparr>currentQualityIndex := i\<rparr>)"
    if "hlsRef st = Some h" "HlsDestroy h \<in> set (calls st)"
    using that by (simp add: changeQuality_def)
  moreover have "hlsRef st = None \<Longrightarrow> hlsAlive st = None"
    by (simp add: hlsAlive_def)
  ultimately show ?thesis by (auto simp: changeQuality_sel dest: hlsAlive_hlsRef)
qed

lemma destroyedSession_state:
  "hlsRef (run hlsJsBrowser destroyedSession initialPlayer) = Some 0"
  "calls (run hlsJsBrowser destroyedSession initialPlayer) =
     [HlsNew 0 True True (- 1), HlsLoadSource 0 DEFAULT_STREAM, HlsAttachMedia 0,
      VideoPlay (Some CatchHls), HlsDestroy 0]"
  "map index (qualities (run hlsJsBrowser destroyedSession initialPlayer)) = [1, 0]"
  "showSettings (run hlsJsBrowser destroyedSession initialPlayer)"
  "error (run hlsJsBrowser destroyedSession initialPlayer) = Some MSG_STREAM_ERROR"
  using isHls_default
  by (simp_all add: destroyedSession_def run_def fire_def srcChanged_def cleanupPlayer_def
      setupPlayer_def loadVideo_def issue_def initialPlayer_def hlsJsBrowser_def isHlsSource_def
      includesStr_sublist hlsAlive_def onManifestParsed_def onHlsError_def click_def
      offered_def render_def twoLevels_def sortBy_def compareHeight_def toQualityLevel_def
      MSG_STREAM_ERROR_def)

text \<open>
  C5. With a live client \<open>changeQuality\<close> writes the index as its current level and
  closes the menu; with no client referenced it calls nothing and closes the menu, and the
  quality button is hidden then (\<open>changeQuality_by_design\<close>). After a fatal error of
  another category, however, the client is destroyed but still referenced and the quality
  list is still set: no client is active, yet the quality button is rendered and offers the
  change, the write goes to the destroyed instance and throws, and the menu stays open.
\<close>

theorem C5_changeQuality_destroyed_client:
  "hlsRef (run hlsJsBrowser destroyedSession initialPlayer) = Some 0
   \<and> hlsAlive (run hlsJsBrowser destroyedSession initialPlayer) = None
   \<and> qualityButton (render (run hlsJsBrowser destroyedSession initialPlayer)) \<noteq> None
   \<and> ChangeQuality 1 \<in> set (offered (render (run hlsJsBrowser destroyedSession initialPlayer)))
   \<and> fst (changeQuality 1 (run hlsJsBrowser destroyedSession initialPlayer)) = Some TypeError
   \<and> showSettings (fire hlsJsBrowser (Click (ChangeQuality 1))
        (run hlsJsBrowser destroyedSession initialPlayer))
   \<and> qualityMenu (render (fire hlsJsBrowser (Click (ChangeQuality 1))
        (run hlsJsBrowser destroyedSession initialPlayer))) \<noteq> None
   \<and> currentQualityIndex (fire hlsJsBrowser (Click (ChangeQuality 1))
        (run hlsJsBrowser destroyedSession initialPlayer)) = 1"
proof -
  let ?s = "run hlsJsBrowser destroyedSession initialPlayer"
  note d = destroyedSession_state
  have ne: "qualities ?s \<noteq> []" using d(3) by auto
  have dead: "hlsAlive ?s = None" by (simp add: hlsAlive_def d(1,2))
  have btn: "qualityButton (render ?s) \<noteq> None" using ne by (simp add: render_def)
  have off: "ChangeQuality 1 \<in> set (offered (render ?s))"
  proof -
    have "(1::int) \<in> set (map index (qualities ?s))" by (simp only: d(3)) simp
    then have "ChangeQuality 1 \<in> set (map (\<lambda>q. ChangeQuality (index q)) (qualities ?s))"
      by auto
    then show ?thesis using ne d(4) by (simp add: offered_def render_def)
  qed
  have thrown: "fst (changeQuality 1 ?s) = Some TypeError"
    by (simp add: changeQuality_sel dead d(1))
  have after: "fire hlsJsBrowser (Click (ChangeQuality 1)) ?s = snd (changeQuality 1 ?s)"
    using off by (simp add: fire_def click_def)
  have "showSettings (snd (changeQuality 1 ?s))"
    by (simp add: changeQuality_sel dead d(1,4))
  moreover have "qualityMenu (render (snd (changeQuality 1 ?s))) \<noteq> None"
    using ne by (simp add: render_def changeQuality_sel dead d(1,4))
  moreover have "currentQualityIndex (snd (changeQuality 1 ?s)) = 1"
    by (simp add: changeQuality_sel)
  ultimately show ?thesis using d(1) dead btn off thrown by (simp only: after simp_thms)
qed

section \<open>A rejected request to play\<close>

lemma onPlayRejected_sel:
  "isPlaying (onPlayRejected CatchHls st) = False"
  "isMuted (onPlayRejected c st) = True"
  "error (onPlayRejected c st) = error st"
  "calls (onPlayRejected c st) = calls st"
  "isPlaying (onPlayRejected CatchNative st) = isPlaying st"
  by (simp_all add: onPlayRejected_def split: play_catch.splits)

text \<open>
  C6. On the adaptive path the rejection handler clears the playing flag and sets the muted
  flag. The handler of the native and direct-file paths sets the muted flag only: when the
  playing flag is still set from the session before, it stays set after the rejection.
\<close>

theorem C6_rejected_play_keeps_playing_flag:
  "isPlaying (run hlsJsBrowser staleSession initialPlayer)
   \<and> isMuted (run hlsJsBrowser staleSession initialPlayer)
   \<and> error (run hlsJsBrowser staleSession initialPlayer) = None"
  using isHls_default notHls_mp4
  by (simp add: staleSession_def run_def fire_def srcChanged_def cleanupPlayer_def setupPlayer_def
      loadVideo_def issue_def initialPlayer_def hlsJsBrowser_def isHlsSource_def
      includesStr_sublist hlsAlive_def onManifestParsed_def onPlay_def onLoadedData_def
      onPlayRejected_def)

end
